theory Spec2Isabelle
  imports Complex_Main "HOL-Library.AList"
begin

section \<open>Data model of \<open>chemora_ocean.py\<close>\<close>

text \<open>
  Python floats are modelled as real numbers: the arithmetic of the model is exact, the
  rounding of IEEE doubles is not modelled. Python integers are \<open>int\<close>. A dictionary is an
  association list in insertion order (keys pairwise distinct), read with \<open>map_of\<close> and
  written with \<open>AList.update\<close>, which overwrites an existing key in place and appends a
  new one, as a Python dict does. A failed dictionary lookup is the error value
  \<open>KeyError\<close>.

  Console output (\<open>print\<close>) and plotting are not modelled. The outcomes of the calls to
  \<open>random\<close> are arguments of the model.

  \<open>Species\<close> objects are mutable and shared (the species list, the \<open>symbiosis\<close> reference
  and the two arguments of \<open>predation\<close> may all denote the same object), so they live in a
  heap indexed by addresses; a list of species is a list of addresses.
\<close>

datatype error = KeyError

type_synonym addr = nat

record Species =
  name :: string
  energy_efficiency :: real
  reproduction_rate :: real
  predation_rate :: real
  chemical_affinity :: string
  population :: int
  energy :: real
  symbiosis :: "addr option"

type_synonym heap = "addr \<Rightarrow> Species"

type_synonym chem_map = "(string \<times> real) list"

definition INITIAL_CHEMICALS :: chem_map where
  "INITIAL_CHEMICALS = [(''hydrogen'', 1000), (''sulfur'', 800), (''methane'', 500)]"

definition ENERGY_YIELD :: "(string \<times> int) list" where
  "ENERGY_YIELD = [(''hydrogen'', 10), (''sulfur'', 8), (''methane'', 5)]"

text \<open>Python's \<open>int(x)\<close> on a float: truncation toward zero.\<close>

definition py_int :: "real \<Rightarrow> int" where
  "py_int x = (if x < 0 then \<lceil>x\<rceil> else \<lfloor>x\<rfloor>)"

section \<open>Species behaviours\<close>

text \<open>
  \<open>consume_chemicals\<close>: \<open>environment[chemical]\<close> raises \<open>KeyError\<close> when the affinity is
  not a key of the environment, and \<open>ENERGY_YIELD[chemical]\<close> raises it when the affinity
  has no yield; the second lookup is only reached when the quantity is positive, and both
  happen before anything is written.
\<close>

definition consume_chemicals :: "Species \<Rightarrow> chem_map \<Rightarrow> error + (Species \<times> chem_map)" where
  "consume_chemicals self environment =
     (let chemical = chemical_affinity self in
      case map_of environment chemical of
        None \<Rightarrow> Inl KeyError
      | Some avail \<Rightarrow>
          if avail > 0 then
            (case map_of ENERGY_YIELD chemical of
               None \<Rightarrow> Inl KeyError
             | Some y \<Rightarrow>
                 let energy_gained =
                       min avail (of_int (population self)) * of_int y * energy_efficiency self;
                     environment' =
                       AList.update chemical (avail - min avail (of_int (population self)))
                         environment
                 in Inr (self\<lparr>energy := energy self + energy_gained\<rparr>, environment'))
          else Inr (self, environment))"

definition reproduce :: "Species \<Rightarrow> Species" where
  "reproduce self =
     (let energy_needed = population self * 2 in
      if energy self \<ge> of_int energy_needed then
        let offspring = py_int (of_int (population self) * reproduction_rate self) in
        self\<lparr>population := population self + offspring,
             energy := energy self - of_int energy_needed\<rparr>
      else self)"

text \<open>
  \<open>predation\<close> writes the predator first and then reads the prey's population again for
  the subtraction, so the two writes compose when both arguments are the same object.
\<close>

definition predation :: "addr \<Rightarrow> addr \<Rightarrow> heap \<Rightarrow> heap" where
  "predation self prey h =
     (if population (h prey) > 0 then
        let prey_loss = py_int (of_int (population (h prey)) * predation_rate (h self));
            h1 = h(self := (h self)\<lparr>population := population (h self) + prey_loss div 2\<rparr>)
        in h1(prey := (h1 prey)\<lparr>population := population (h1 prey) - prey_loss\<rparr>)
      else h)"

text \<open>An object without \<open>__bool__\<close> is truthy, so the test is whether a partner is set.\<close>

definition symbiotic_interaction :: "addr \<Rightarrow> heap \<Rightarrow> heap" where
  "symbiotic_interaction self h =
     (case symbiosis (h self) of
        None \<Rightarrow> h
      | Some partner \<Rightarrow>
          h(self := (h self)\<lparr>energy := energy (h self)
                        + of_int (py_int (of_int (population (h partner)) * (1 / 10)))\<rparr>))"

text \<open>
  \<open>evolve\<close> draws \<open>random.random()\<close>, and on a mutation \<open>random.choice\<close> of a trait and
  \<open>random.uniform(0.9, 1.1)\<close>; the three outcomes are an argument of the model.
\<close>

datatype trait = Energy_efficiency | Reproduction_rate | Predation_rate

record evolve_draw =
  mutation_chance :: real
  chosen_trait :: trait
  mutation_factor :: real

definition evolve :: "evolve_draw \<Rightarrow> Species \<Rightarrow> Species" where
  "evolve d self =
     (if mutation_chance d < 1 / 10 then
        (case chosen_trait d of
           Energy_efficiency \<Rightarrow>
             self\<lparr>energy_efficiency := energy_efficiency self * mutation_factor d\<rparr>
         | Reproduction_rate \<Rightarrow>
             self\<lparr>reproduction_rate := reproduction_rate self * mutation_factor d\<rparr>
         | Predation_rate \<Rightarrow>
             self\<lparr>predation_rate := predation_rate self * mutation_factor d\<rparr>)
      else self)"

section \<open>Environment\<close>

text \<open>
  \<open>random.randint(a, b)\<close> returns an integer \<open>N\<close> with \<open>a \<le> N \<le> b\<close>. The model takes the
  raw outcome of the draw as a natural number and maps it into the range; every integer
  of the range is the image of some outcome (\<open>randint_onto\<close> below).
\<close>

definition randint :: "int \<Rightarrow> int \<Rightarrow> nat \<Rightarrow> int" where
  "randint a b r = a + int r mod (b - a + 1)"

text \<open>
  \<open>Environment\<close> has the single field \<open>chemicals\<close>. \<open>replenish_chemicals\<close> visits the keys
  in dictionary order and adds a fresh draw to each value; the \<open>i\<close>-th key visited gets
  the \<open>i\<close>-th draw.
\<close>

fun replenish_from :: "nat \<Rightarrow> (nat \<Rightarrow> nat) \<Rightarrow> chem_map \<Rightarrow> chem_map" where
  "replenish_from i r [] = []"
| "replenish_from i r ((chemical, q) # rest) =
     (chemical, q + of_int (randint 10 50 (r i))) # replenish_from (Suc i) r rest"

definition replenish_chemicals :: "(nat \<Rightarrow> nat) \<Rightarrow> chem_map \<Rightarrow> chem_map" where
  "replenish_chemicals r cs = replenish_from 0 r cs"

section \<open>The simulation loop\<close>

text \<open>
  The state of a run: the heap of species, \<open>environment.chemicals\<close>, and the two history
  structures. \<open>population_history\<close> is a dictionary from species name to a list.
\<close>

record sim =
  heap :: heap
  chemicals :: chem_map
  population_history :: "(string \<times> int list) list"
  chemical_history :: "real list"

text \<open>The random outcomes of a run, by generation and by position of the call in it.\<close>

record randomness =
  evolve_draws :: "nat \<Rightarrow> nat \<Rightarrow> evolve_draw"
  replenish_draws :: "nat \<Rightarrow> nat \<Rightarrow> nat"

text \<open>The body of the first inner loop, for one species of the list.\<close>

definition species_turn :: "addr \<Rightarrow> sim \<Rightarrow> error + sim" where
  "species_turn a s =
     (case consume_chemicals (heap s a) (chemicals s) of
        Inl e \<Rightarrow> Inl e
      | Inr (sp, cs) \<Rightarrow>
          let h1 = (heap s)(a := sp);
              h2 = symbiotic_interaction a h1;
              h3 = h2(a := reproduce (h2 a))
          in (case map_of (population_history s) (name (h3 a)) of
                None \<Rightarrow> Inl KeyError
              | Some l \<Rightarrow>
                  Inr (s\<lparr>heap := h3, chemicals := cs,
                         population_history :=
                           AList.update (name (h3 a)) (l @ [population (h3 a)])
                             (population_history s)\<rparr>)))"

fun species_pass :: "addr list \<Rightarrow> sim \<Rightarrow> error + sim" where
  "species_pass [] s = Inr s"
| "species_pass (a # rest) s =
     (case species_turn a s of Inl e \<Rightarrow> Inl e | Inr s' \<Rightarrow> species_pass rest s')"

text \<open>\<open>species_list[i]\<close> preys on \<open>species_list[i + 1]\<close> for \<open>i\<close> from 0 to \<open>len - 2\<close>.\<close>

fun predation_pass :: "addr list \<Rightarrow> heap \<Rightarrow> heap" where
  "predation_pass (predator # prey # rest) h =
     predation_pass (prey # rest) (predation predator prey h)"
| "predation_pass _ h = h"

fun evolve_pass :: "(nat \<Rightarrow> evolve_draw) \<Rightarrow> nat \<Rightarrow> addr list \<Rightarrow> heap \<Rightarrow> heap" where
  "evolve_pass d i [] h = h"
| "evolve_pass d i (a # rest) h = evolve_pass d (Suc i) rest (h(a := evolve (d i) (h a)))"

definition generation :: "randomness \<Rightarrow> addr list \<Rightarrow> nat \<Rightarrow> sim \<Rightarrow> error + sim" where
  "generation rnd species_list gen s =
     (let total_chemicals = sum_list (map snd (chemicals s));
          s1 = s\<lparr>chemical_history := chemical_history s @ [total_chemicals]\<rparr>
      in case species_pass species_list s1 of
           Inl e \<Rightarrow> Inl e
         | Inr s2 \<Rightarrow>
             Inr (s2\<lparr>heap := evolve_pass (evolve_draws rnd gen) 0 species_list
                                (predation_pass species_list (heap s2)),
                      chemicals := replenish_chemicals (replenish_draws rnd gen) (chemicals s2)\<rparr>))"

text \<open>\<open>generations_loop rnd sl gen n\<close> runs the generations \<open>gen, ..., gen + n - 1\<close>.\<close>

fun generations_loop :: "randomness \<Rightarrow> addr list \<Rightarrow> nat \<Rightarrow> nat \<Rightarrow> sim \<Rightarrow> error + sim" where
  "generations_loop rnd species_list gen 0 s = Inr s"
| "generations_loop rnd species_list gen (Suc n) s =
     (case generation rnd species_list gen s of
        Inl e \<Rightarrow> Inl e
      | Inr s' \<Rightarrow> generations_loop rnd species_list (Suc gen) n s')"

text \<open>
  The dictionary comprehension builds one entry per distinct name, in order of first
  occurrence. \<open>range(generations)\<close> is empty for a negative count. The result carries the
  returned pair \<open>(population_history, chemical_history)\<close> together with the final heap and
  environment, which the caller sees mutated in place.
\<close>

definition initial_history :: "heap \<Rightarrow> addr list \<Rightarrow> (string \<times> int list) list" where
  "initial_history h species_list = fold (\<lambda>a ph. AList.update (name (h a)) [] ph) species_list []"

definition initial_state :: "addr list \<Rightarrow> heap \<Rightarrow> chem_map \<Rightarrow> sim" where
  "initial_state species_list h environment =
     \<lparr>heap = h, chemicals = environment,
      population_history = initial_history h species_list,
      chemical_history = []\<rparr>"

definition simulate_ecosystem ::
  "randomness \<Rightarrow> addr list \<Rightarrow> heap \<Rightarrow> chem_map \<Rightarrow> int \<Rightarrow> error + sim" where
  "simulate_ecosystem rnd species_list h environment generations =
     generations_loop rnd species_list 0 (nat generations)
       (initial_state species_list h environment)"

section \<open>Predicates and example inputs\<close>


text \<open>\<open>species_a\<close> of the example setup, with a population of 100.\<close>

definition ex_species :: Species where
  "ex_species =
     \<lparr>name = ''Chemosynth A'', energy_efficiency = 8 / 10, reproduction_rate = 5 / 100,
      predation_rate = 2 / 100, chemical_affinity = ''hydrogen'', population = 100,
      energy = 0, symbiosis = None\<rparr>"

text \<open>A heap with a second species of population 200 at address 1.\<close>

definition two_species :: heap where
  "two_species =
     (\<lambda>_. ex_species)(1 := ex_species\<lparr>name := ''Chemosynth B'', population := 200\<rparr>)"




text \<open>The three species of the example setup, with populations inside \<open>[50, 150]\<close>.\<close>

definition example_heap :: heap where
  "example_heap =
     (\<lambda>_. ex_species)
       (1 := \<lparr>name = ''Chemosynth B'', energy_efficiency = 7 / 10, reproduction_rate = 4 / 100,
              predation_rate = 3 / 100, chemical_affinity = ''sulfur'', population = 120,
              energy = 0, symbiosis = Some 0\<rparr>,
        2 := \<lparr>name = ''Chemosynth C'', energy_efficiency = 6 / 10, reproduction_rate = 6 / 100,
              predation_rate = 4 / 100, chemical_affinity = ''methane'', population = 80,
              energy = 0, symbiosis = None\<rparr>)"


definition quiet_draw :: evolve_draw where
  "quiet_draw =
     \<lparr>mutation_chance = 1 / 2, chosen_trait = Energy_efficiency, mutation_factor = 1\<rparr>"

text \<open>The names of the species of a list, in list order.\<close>

definition species_names :: "heap \<Rightarrow> addr list \<Rightarrow> string list" where
  "species_names h species_list = map (\<lambda>a. name (h a)) species_list"

text \<open>
  Inputs on which no lookup of \<open>consume_chemicals\<close> fails: the affinity of every listed
  species is a key of the environment and of \<open>ENERGY_YIELD\<close>.
\<close>

definition valid_setup :: "heap \<Rightarrow> addr list \<Rightarrow> chem_map \<Rightarrow> bool" where
  "valid_setup h species_list environment \<longleftrightarrow>
     (\<forall>a \<in> set species_list.
        chemical_affinity (h a) \<in> fst ` set environment \<and>
        chemical_affinity (h a) \<in> fst ` set ENERGY_YIELD)"

text \<open>Name and affinity are never written after construction.\<close>

definition same_identity :: "heap \<Rightarrow> heap \<Rightarrow> bool" where
  "same_identity h h' \<longleftrightarrow>
     (\<forall>x. name (h' x) = name (h x) \<and> chemical_affinity (h' x) = chemical_affinity (h x))"

definition chem_nonneg :: "chem_map \<Rightarrow> bool" where
  "chem_nonneg cs \<longleftrightarrow> (\<forall>q \<in> snd ` set cs. 0 \<le> q)"

text \<open>Fixed outcomes of the draws: no mutation, and replenishments of 10, 17, 24, ...\<close>

definition fixed_randomness :: randomness where
  "fixed_randomness =
     \<lparr>evolve_draws = (\<lambda>g i. quiet_draw), replenish_draws = (\<lambda>g i. 7 * i)\<rparr>"

text \<open>A heap in which every object is a species named \<open>Chemosynth A\<close>.\<close>

definition twin_heap :: heap where
  "twin_heap = (\<lambda>_. ex_species)"

section \<open>Basic facts\<close>




section \<open>Single behaviours\<close>

subsection \<open>Consumption\<close>



subsection \<open>Reproduction\<close>




subsection \<open>Predation\<close>




text \<open>
  When predator and prey are the same object, the two writes compose: a population of 200
  at rate 0.02 becomes \<open>200 + 2 - 4\<close>.
\<close>

lemma predation_self_example: "population (predation 1 1 two_species 1) = 198"
  by (simp add: two_species_def ex_species_def predation_def py_int_def)

subsection \<open>Non-negativity of population and energy\<close>









section \<open>Replenishment\<close>

lemma randint_range:
  assumes "a \<le> b"
  shows "a \<le> randint a b r \<and> randint a b r \<le> b"
proof -
  have pos: "0 < b - a + 1" using assms by simp
  have "0 \<le> int r mod (b - a + 1)" using pos by (rule pos_mod_sign)
  moreover have "int r mod (b - a + 1) < b - a + 1" using pos by (rule pos_mod_bound)
  ultimately show ?thesis unfolding randint_def by linarith
qed

lemma randint_onto:
  assumes "a \<le> n" and "n \<le> b"
  shows "\<exists>r. randint a b r = n"
proof
  show "randint a b (nat (n - a)) = n" using assms by (simp add: randint_def)
qed

lemma replenish_from_keys: "map fst (replenish_from i r cs) = map fst cs"
  by (induction i r cs rule: replenish_from.induct) simp_all

lemma replenish_from_lookup:
  "map_of cs k = Some q \<Longrightarrow>
     \<exists>j. map_of (replenish_from i r cs) k = Some (q + of_int (randint 10 50 (r j)))"
  by (induction i r cs rule: replenish_from.induct) (auto split: if_splits)

text \<open>
  Claim C8. For every environment and every outcome of the draws, \<open>replenish_chemicals\<close>
  leaves the keys as they are, in their order, and adds to the quantity of every key an
  integer between 10 and 50.
\<close>

theorem replenish_chemicals_spec:
  "map fst (replenish_chemicals r cs) = map fst cs \<and>
   (\<forall>k q. map_of cs k = Some q \<longrightarrow>
      (\<exists>d::int. 10 \<le> d \<and> d \<le> 50 \<and>
         map_of (replenish_chemicals r cs) k = Some (q + of_int d)))"
proof (intro conjI allI impI)
  show "map fst (replenish_chemicals r cs) = map fst cs"
    by (simp add: replenish_chemicals_def replenish_from_keys)
next
  fix k q assume "map_of cs k = Some q"
  then obtain j where
    "map_of (replenish_chemicals r cs) k = Some (q + of_int (randint 10 50 (r j)))"
    unfolding replenish_chemicals_def using replenish_from_lookup by blast
  moreover have "10 \<le> randint 10 50 (r j) \<and> randint 10 50 (r j) \<le> 50"
    by (rule randint_range) simp
  ultimately show "\<exists>d::int. 10 \<le> d \<and> d \<le> 50 \<and>
         map_of (replenish_chemicals r cs) k = Some (q + of_int d)"
    by blast
qed

theorem replenish_chemicals_spec_witness:
  "map_of INITIAL_CHEMICALS ''sulfur'' = Some 800 \<and>
   replenish_chemicals (\<lambda>i. 7 * i) INITIAL_CHEMICALS
     = [(''hydrogen'', 1010), (''sulfur'', 817), (''methane'', 524)] \<and>
   (\<exists>d::int. 10 \<le> d \<and> d \<le> 50 \<and>
      map_of (replenish_chemicals (\<lambda>i. 7 * i) INITIAL_CHEMICALS) ''sulfur''
        = Some (800 + of_int d))"
proof -
  have a: "map_of INITIAL_CHEMICALS ''sulfur'' = Some 800"
    by (simp add: INITIAL_CHEMICALS_def)
  have b: "replenish_chemicals (\<lambda>i. 7 * i) INITIAL_CHEMICALS
     = [(''hydrogen'', 1010), (''sulfur'', 817), (''methane'', 524)]"
    by (simp add: replenish_chemicals_def INITIAL_CHEMICALS_def randint_def)
  from replenish_chemicals_spec [of "\<lambda>i. 7 * i" INITIAL_CHEMICALS] a
  have "\<exists>d::int. 10 \<le> d \<and> d \<le> 50 \<and>
      map_of (replenish_chemicals (\<lambda>i. 7 * i) INITIAL_CHEMICALS) ''sulfur''
        = Some (800 + of_int d)"
    by blast
  with a b show ?thesis by blast
qed

section \<open>What a pass over the species keeps\<close>

lemma update_present_keys:
  "map_of al k = Some v \<Longrightarrow> map fst (AList.update k w al) = map fst al"
  by (simp add: AList.update_keys) (metis domI dom_map_of_conv_image_fst image_set)

lemma consume_chemicals_frame:
  assumes "consume_chemicals sp env = Inr (sp', env')"
  shows "name sp' = name sp" and "chemical_affinity sp' = chemical_affinity sp"
    and "population sp' = population sp" and "map fst env' = map fst env"
  using assms
  by (auto simp: consume_chemicals_def Let_def update_present_keys
      split: option.splits if_splits)

lemma consume_chemicals_ok:
  assumes "chemical_affinity sp \<in> fst ` set env"
    and "chemical_affinity sp \<in> fst ` set ENERGY_YIELD"
  shows "\<exists>r. consume_chemicals sp env = Inr r"
proof -
  from assms obtain q y where "map_of env (chemical_affinity sp) = Some q"
    "map_of ENERGY_YIELD (chemical_affinity sp) = Some y"
    by (metis domD dom_map_of_conv_image_fst)
  then show ?thesis by (simp add: consume_chemicals_def Let_def)
qed

lemma symbiotic_interaction_frame:
  "name (symbiotic_interaction a h x) = name (h x)"
  "chemical_affinity (symbiotic_interaction a h x) = chemical_affinity (h x)"
  "population (symbiotic_interaction a h x) = population (h x)"
  "x \<noteq> a \<Longrightarrow> symbiotic_interaction a h x = h x"
  by (auto simp: symbiotic_interaction_def split: option.splits)

lemma reproduce_frame:
  "name (reproduce sp) = name sp" "chemical_affinity (reproduce sp) = chemical_affinity sp"
  by (simp_all add: reproduce_def Let_def)

lemma evolve_frame:
  "name (evolve d sp) = name sp" "chemical_affinity (evolve d sp) = chemical_affinity sp"
  "population (evolve d sp) = population sp" "energy (evolve d sp) = energy sp"
  by (simp_all add: evolve_def split: trait.splits)

lemma predation_frame:
  "name (predation a b h x) = name (h x)"
  "chemical_affinity (predation a b h x) = chemical_affinity (h x)"
  by (simp_all add: predation_def Let_def)

lemma same_identity_refl: "same_identity h h"
  by (simp add: same_identity_def)

lemma same_identity_trans:
  "same_identity h1 h2 \<Longrightarrow> same_identity h2 h3 \<Longrightarrow> same_identity h1 h3"
  by (simp add: same_identity_def)

lemma predation_pass_identity: "same_identity h (predation_pass sl h)"
proof (induction sl h rule: predation_pass.induct)
  case (1 predator prey rest h)
  have "same_identity h (predation predator prey h)"
    by (simp add: same_identity_def predation_frame)
  with 1 show ?case by (auto intro: same_identity_trans)
qed (simp_all add: same_identity_refl)

lemma evolve_pass_identity: "same_identity h (evolve_pass d i sl h)"
proof (induction sl arbitrary: i h)
  case Nil
  show ?case by (simp add: same_identity_refl)
next
  case (Cons a rest)
  have "same_identity h (h(a := evolve (d i) (h a)))"
    by (simp add: same_identity_def evolve_frame)
  moreover have "same_identity (h(a := evolve (d i) (h a)))
      (evolve_pass d (Suc i) rest (h(a := evolve (d i) (h a))))"
    by (rule Cons.IH)
  ultimately show ?case by (auto intro: same_identity_trans)
qed

lemma evolve_pass_population: "population (evolve_pass d i sl h x) = population (h x)"
proof (induction sl arbitrary: i h)
  case Nil
  show ?case by simp
next
  case (Cons a rest)
  have "population (evolve_pass d (Suc i) rest (h(a := evolve (d i) (h a))) x)
      = population ((h(a := evolve (d i) (h a))) x)"
    by (rule Cons.IH)
  then show ?case by (simp add: evolve_frame)
qed

lemma species_turn_elim:
  assumes "species_turn a s = Inr s'"
  obtains sp cs l where
    "consume_chemicals (heap s a) (chemicals s) = Inr (sp, cs)"
    "heap s' = (symbiotic_interaction a ((heap s)(a := sp)))
                 (a := reproduce (symbiotic_interaction a ((heap s)(a := sp)) a))"
    "chemicals s' = cs"
    "map_of (population_history s) (name (heap s a)) = Some l"
    "population_history s'
       = AList.update (name (heap s a)) (l @ [population (heap s' a)]) (population_history s)"
    "chemical_history s' = chemical_history s"
proof -
  from assms obtain sp cs where c: "consume_chemicals (heap s a) (chemicals s) = Inr (sp, cs)"
    by (auto simp: species_turn_def split: sum.splits)
  let ?h2 = "symbiotic_interaction a ((heap s)(a := sp))"
  let ?h3 = "?h2(a := reproduce (?h2 a))"
  have n: "name (?h3 a) = name (heap s a)"
    using consume_chemicals_frame(1) [OF c]
    by (simp add: reproduce_frame symbiotic_interaction_frame)
  from assms c obtain l where l: "map_of (population_history s) (name (?h3 a)) = Some l"
    and s': "s' = s\<lparr>heap := ?h3, chemicals := cs,
                    population_history :=
                      AList.update (name (?h3 a)) (l @ [population (?h3 a)])
                        (population_history s)\<rparr>"
    by (auto simp: species_turn_def Let_def split: option.splits)
  show ?thesis
  proof (rule that [OF c])
    show "heap s' = ?h3" by (simp add: s')
    show "chemicals s' = cs" by (simp add: s')
    show "map_of (population_history s) (name (heap s a)) = Some l" using l n by simp
    show "population_history s'
       = AList.update (name (heap s a)) (l @ [population (heap s' a)]) (population_history s)"
      using n by (simp add: s')
    show "chemical_history s' = chemical_history s" by (simp add: s')
  qed
qed

lemma species_turn_ok:
  assumes "chemical_affinity (heap s a) \<in> fst ` set (chemicals s)"
    and "chemical_affinity (heap s a) \<in> fst ` set ENERGY_YIELD"
    and "name (heap s a) \<in> fst ` set (population_history s)"
  shows "\<exists>s'. species_turn a s = Inr s'"
proof -
  from consume_chemicals_ok [OF assms(1,2)] obtain sp cs
    where c: "consume_chemicals (heap s a) (chemicals s) = Inr (sp, cs)" by auto
  let ?h2 = "symbiotic_interaction a ((heap s)(a := sp))"
  let ?h3 = "?h2(a := reproduce (?h2 a))"
  have n: "name (?h3 a) = name (heap s a)"
    using consume_chemicals_frame(1) [OF c]
    by (simp add: reproduce_frame symbiotic_interaction_frame)
  from assms(3) obtain l where "map_of (population_history s) (name (heap s a)) = Some l"
    by (metis domD dom_map_of_conv_image_fst)
  with c n show ?thesis by (simp add: species_turn_def Let_def)
qed

lemma species_turn_frame:
  assumes "species_turn a s = Inr s'"
  shows "same_identity (heap s) (heap s')"
    and "map fst (chemicals s') = map fst (chemicals s)"
    and "map fst (population_history s') = map fst (population_history s)"
    and "x \<noteq> a \<Longrightarrow> heap s' x = heap s x"
proof -
  from assms obtain sp cs l where
    c: "consume_chemicals (heap s a) (chemicals s) = Inr (sp, cs)" and
    h: "heap s' = (symbiotic_interaction a ((heap s)(a := sp)))
                 (a := reproduce (symbiotic_interaction a ((heap s)(a := sp)) a))" and
    cs: "chemicals s' = cs" and
    l: "map_of (population_history s) (name (heap s a)) = Some l" and
    ph: "population_history s'
       = AList.update (name (heap s a)) (l @ [population (heap s' a)]) (population_history s)"
    by (rule species_turn_elim)
  show "same_identity (heap s) (heap s')"
    using consume_chemicals_frame(1,2) [OF c]
    by (simp add: same_identity_def h reproduce_frame symbiotic_interaction_frame)
  show "map fst (chemicals s') = map fst (chemicals s)"
    using consume_chemicals_frame(4) [OF c] cs by simp
  show "map fst (population_history s') = map fst (population_history s)"
    using l by (simp add: ph update_present_keys)
  show "x \<noteq> a \<Longrightarrow> heap s' x = heap s x"
    by (simp add: h symbiotic_interaction_frame)
qed


lemma species_names_simps:
  "species_names h [] = []"
  "species_names h (a # rest) = name (h a) # species_names h rest"
  "set (species_names h sl) = (\<lambda>a. name (h a)) ` set sl"
  by (simp_all add: species_names_def)

lemma species_names_cong:
  "same_identity h h' \<Longrightarrow> species_names h' sl = species_names h sl"
  by (simp add: species_names_def same_identity_def)

lemma valid_setup_cong:
  assumes "same_identity h h'" and "map fst env' = map fst env"
  shows "valid_setup h' sl env' = valid_setup h sl env"
proof -
  have "fst ` set env' = fst ` set env"
    using assms(2) by (metis image_set)
  with assms(1) show ?thesis by (simp add: valid_setup_def same_identity_def)
qed

lemma species_pass_append:
  "species_pass (xs @ ys) s =
     (case species_pass xs s of Inl e \<Rightarrow> Inl e | Inr s' \<Rightarrow> species_pass ys s')"
  by (induction xs arbitrary: s) (simp_all split: sum.splits)

lemma species_pass_frame:
  assumes "species_pass sl s = Inr s'"
  shows "same_identity (heap s) (heap s') \<and>
         map fst (chemicals s') = map fst (chemicals s) \<and>
         map fst (population_history s') = map fst (population_history s) \<and>
         chemical_history s' = chemical_history s \<and>
         (x \<notin> set sl \<longrightarrow> heap s' x = heap s x)"
  using assms
proof (induction sl arbitrary: s)
  case Nil
  then show ?case by (simp add: same_identity_refl)
next
  case (Cons a rest)
  from Cons.prems obtain s1 where t: "species_turn a s = Inr s1"
    and r: "species_pass rest s1 = Inr s'"
    by (auto split: sum.splits)
  have ch: "chemical_history s1 = chemical_history s"
    using t by (rule species_turn_elim)
  from Cons.IH [OF r] species_turn_frame [OF t] ch show ?case
    by (auto intro: same_identity_trans)
qed

lemma species_pass_ok:
  assumes "valid_setup (heap s) sl (chemicals s)"
    and "set (species_names (heap s) sl) \<subseteq> fst ` set (population_history s)"
  shows "\<exists>s'. species_pass sl s = Inr s'"
  using assms
proof (induction sl arbitrary: s)
  case Nil
  show ?case by simp
next
  case (Cons a rest)
  from Cons.prems have "\<exists>s1. species_turn a s = Inr s1"
    by (intro species_turn_ok) (simp_all add: valid_setup_def species_names_def)
  then obtain s1 where t: "species_turn a s = Inr s1" ..
  note f = species_turn_frame [OF t]
  have "valid_setup (heap s1) rest (chemicals s1)"
    using Cons.prems(1) valid_setup_cong [OF f(1) f(2), of rest]
    by (simp add: valid_setup_def)
  moreover have "set (species_names (heap s1) rest) \<subseteq> fst ` set (population_history s1)"
  proof -
    have "fst ` set (population_history s1) = fst ` set (population_history s)"
      using f(3) by (metis image_set)
    with Cons.prems(2) species_names_cong [OF f(1), of rest] show ?thesis
      by (simp add: species_names_def)
  qed
  ultimately obtain s' where "species_pass rest s1 = Inr s'"
    using Cons.IH by blast
  with t show ?case by simp
qed

lemma species_pass_lengths:
  assumes "species_pass sl s = Inr s'"
    and "map_of (population_history s) n = Some l"
  shows "\<exists>l'. map_of (population_history s') n = Some l' \<and>
              length l' = length l + count_list (species_names (heap s) sl) n"
  using assms
proof (induction sl arbitrary: s l)
  case Nil
  then show ?case by (simp add: species_names_simps(1))
next
  case (Cons a rest)
  from Cons.prems(1) obtain s1 where t: "species_turn a s = Inr s1"
    and r: "species_pass rest s1 = Inr s'"
    by (auto split: sum.splits)
  from t obtain la where
    la: "map_of (population_history s) (name (heap s a)) = Some la" and
    ph: "population_history s1
       = AList.update (name (heap s a)) (la @ [population (heap s1 a)]) (population_history s)"
    by (rule species_turn_elim)
  have names: "species_names (heap s1) rest = species_names (heap s) rest"
    using species_turn_frame(1) [OF t] by (rule species_names_cong)
  show ?case
  proof (cases "name (heap s a) = n")
    case True
    with la Cons.prems(2) have "la = l" by simp
    with True ph have "map_of (population_history s1) n = Some (l @ [population (heap s1 a)])"
      by (simp add: AList.update_conv')
    from Cons.IH [OF r this] names True show ?thesis
      by (auto simp: species_names_simps(2))
  next
    case False
    with ph Cons.prems(2) have "map_of (population_history s1) n = Some l"
      by (simp add: AList.update_conv')
    from Cons.IH [OF r this] names False show ?thesis
      by (auto simp: species_names_simps(2))
  qed
qed

lemma species_pass_other_entry:
  assumes "species_pass sl s = Inr s'"
    and "n \<notin> set (species_names (heap s) sl)"
  shows "map_of (population_history s') n = map_of (population_history s) n"
  using assms
proof (induction sl arbitrary: s)
  case Nil
  then show ?case by simp
next
  case (Cons a rest)
  from Cons.prems(1) obtain s1 where t: "species_turn a s = Inr s1"
    and r: "species_pass rest s1 = Inr s'"
    by (auto split: sum.splits)
  from t obtain la where
    ph: "population_history s1
       = AList.update (name (heap s a)) (la @ [population (heap s1 a)]) (population_history s)"
    by (rule species_turn_elim)
  have names: "species_names (heap s1) rest = species_names (heap s) rest"
    using species_turn_frame(1) [OF t] by (rule species_names_cong)
  from Cons.prems(2) have ne: "name (heap s a) \<noteq> n"
    and nr: "n \<notin> set (species_names (heap s) rest)"
    by (auto simp: species_names_simps(2))
  from Cons.IH [OF r] nr names
  have "map_of (population_history s') n = map_of (population_history s1) n" by simp
  also have "\<dots> = map_of (population_history s) n"
    using ne by (simp add: ph AList.update_conv')
  finally show ?case .
qed

section \<open>Generations\<close>

lemma generation_elim:
  assumes "generation rnd sl g s = Inr s'"
  obtains s2 where
    "species_pass sl
       (s\<lparr>chemical_history := chemical_history s @ [sum_list (map snd (chemicals s))]\<rparr>)
       = Inr s2"
    "heap s' = evolve_pass (evolve_draws rnd g) 0 sl (predation_pass sl (heap s2))"
    "chemicals s' = replenish_chemicals (replenish_draws rnd g) (chemicals s2)"
    "population_history s' = population_history s2"
    "chemical_history s' = chemical_history s @ [sum_list (map snd (chemicals s))]"
proof -
  let ?s1 = "s\<lparr>chemical_history := chemical_history s @ [sum_list (map snd (chemicals s))]\<rparr>"
  from assms obtain s2 where p: "species_pass sl ?s1 = Inr s2"
    and s': "s' = s2\<lparr>heap := evolve_pass (evolve_draws rnd g) 0 sl
                                (predation_pass sl (heap s2)),
                      chemicals := replenish_chemicals (replenish_draws rnd g) (chemicals s2)\<rparr>"
    by (auto simp: generation_def Let_def split: sum.splits)
  have "chemical_history s2 = chemical_history ?s1"
    using species_pass_frame [OF p] by simp
  then show ?thesis
    using that [OF p] s' by simp
qed

lemma generation_frame:
  assumes "generation rnd sl g s = Inr s'"
  shows "same_identity (heap s) (heap s')"
    and "map fst (chemicals s') = map fst (chemicals s)"
    and "map fst (population_history s') = map fst (population_history s)"
proof -
  let ?s1 = "s\<lparr>chemical_history := chemical_history s @ [sum_list (map snd (chemicals s))]\<rparr>"
  from assms obtain s2 where p: "species_pass sl ?s1 = Inr s2"
    and h: "heap s' = evolve_pass (evolve_draws rnd g) 0 sl (predation_pass sl (heap s2))"
    and c: "chemicals s' = replenish_chemicals (replenish_draws rnd g) (chemicals s2)"
    and ph: "population_history s' = population_history s2"
    by (rule generation_elim)
  note f = species_pass_frame [OF p]
  have "same_identity (heap s) (heap s2)" using f by simp
  moreover have "same_identity (heap s2) (predation_pass sl (heap s2))"
    by (rule predation_pass_identity)
  moreover have "same_identity (predation_pass sl (heap s2)) (heap s')"
    unfolding h by (rule evolve_pass_identity)
  ultimately show "same_identity (heap s) (heap s')"
    by (blast intro: same_identity_trans)
  show "map fst (chemicals s') = map fst (chemicals s)"
    using f by (simp add: c replenish_chemicals_def replenish_from_keys)
  show "map fst (population_history s') = map fst (population_history s)"
    using f by (simp add: ph)
qed

lemma generation_ok:
  assumes "valid_setup (heap s) sl (chemicals s)"
    and "set (species_names (heap s) sl) \<subseteq> fst ` set (population_history s)"
  shows "\<exists>s'. generation rnd sl g s = Inr s'"
proof -
  let ?s1 = "s\<lparr>chemical_history := chemical_history s @ [sum_list (map snd (chemicals s))]\<rparr>"
  from assms have "\<exists>s2. species_pass sl ?s1 = Inr s2"
    by (intro species_pass_ok) simp_all
  then show ?thesis by (auto simp: generation_def Let_def)
qed

lemma generation_lengths:
  assumes "generation rnd sl g s = Inr s'"
    and "map_of (population_history s) n = Some l"
  shows "\<exists>l'. map_of (population_history s') n = Some l' \<and>
              length l' = length l + count_list (species_names (heap s) sl) n"
proof -
  let ?s1 = "s\<lparr>chemical_history := chemical_history s @ [sum_list (map snd (chemicals s))]\<rparr>"
  from assms(1) obtain s2 where p: "species_pass sl ?s1 = Inr s2"
    and ph: "population_history s' = population_history s2"
    by (rule generation_elim)
  from species_pass_lengths [OF p, of n l] assms(2) ph show ?thesis by simp
qed

lemma generations_loop_ok:
  assumes "valid_setup (heap s) sl (chemicals s)"
    and "set (species_names (heap s) sl) \<subseteq> fst ` set (population_history s)"
  shows "\<exists>s'. generations_loop rnd sl g k s = Inr s'"
  using assms
proof (induction k arbitrary: g s)
  case 0
  show ?case by simp
next
  case (Suc k)
  from generation_ok [OF Suc.prems] obtain s1 where g1: "generation rnd sl g s = Inr s1"
    by blast
  note f = generation_frame [OF g1]
  have "valid_setup (heap s1) sl (chemicals s1)"
    using Suc.prems(1) valid_setup_cong [OF f(1) f(2), of sl] by simp
  moreover have "set (species_names (heap s1) sl) \<subseteq> fst ` set (population_history s1)"
  proof -
    have "fst ` set (population_history s1) = fst ` set (population_history s)"
      using f(3) by (metis image_set)
    with Suc.prems(2) species_names_cong [OF f(1), of sl] show ?thesis by simp
  qed
  ultimately obtain s' where "generations_loop rnd sl (Suc g) k s1 = Inr s'"
    using Suc.IH by blast
  with g1 show ?case by simp
qed

lemma generations_loop_frame:
  assumes "generations_loop rnd sl g k s = Inr s'"
  shows "same_identity (heap s) (heap s') \<and>
         map fst (chemicals s') = map fst (chemicals s) \<and>
         map fst (population_history s') = map fst (population_history s)"
  using assms
proof (induction k arbitrary: g s)
  case 0
  then show ?case by (simp add: same_identity_refl)
next
  case (Suc k)
  from Suc.prems obtain s1 where g1: "generation rnd sl g s = Inr s1"
    and r: "generations_loop rnd sl (Suc g) k s1 = Inr s'"
    by (auto split: sum.splits)
  from Suc.IH [OF r] generation_frame [OF g1] show ?case
    by (auto intro: same_identity_trans)
qed

lemma generations_loop_lengths:
  assumes "generations_loop rnd sl g k s = Inr s'"
    and "map_of (population_history s) n = Some l"
  shows "\<exists>l'. map_of (population_history s') n = Some l' \<and>
              length l' = length l + k * count_list (species_names (heap s) sl) n"
  using assms
proof (induction k arbitrary: g s l)
  case 0
  then show ?case by simp
next
  case (Suc k)
  from Suc.prems(1) obtain s1 where g1: "generation rnd sl g s = Inr s1"
    and r: "generations_loop rnd sl (Suc g) k s1 = Inr s'"
    by (auto split: sum.splits)
  from generation_lengths [OF g1 Suc.prems(2)] obtain l1 where
    l1: "map_of (population_history s1) n = Some l1"
    "length l1 = length l + count_list (species_names (heap s) sl) n"
    by blast
  have names: "species_names (heap s1) sl = species_names (heap s) sl"
    using generation_frame(1) [OF g1] by (rule species_names_cong)
  from Suc.IH [OF r l1(1)] l1(2) names show ?case by auto
qed

lemma generations_loop_chemical_history:
  assumes "generations_loop rnd sl g k s = Inr s'"
  shows "\<exists>xs. chemical_history s' = chemical_history s @ xs \<and> length xs = k \<and>
              (0 < k \<longrightarrow> hd xs = sum_list (map snd (chemicals s)))"
  using assms
proof (induction k arbitrary: g s)
  case 0
  then show ?case by simp
next
  case (Suc k)
  from Suc.prems obtain s1 where g1: "generation rnd sl g s = Inr s1"
    and r: "generations_loop rnd sl (Suc g) k s1 = Inr s'"
    by (auto split: sum.splits)
  have c1: "chemical_history s1 = chemical_history s @ [sum_list (map snd (chemicals s))]"
    using g1 by (rule generation_elim)
  from Suc.IH [OF r] obtain xs where
    "chemical_history s' = chemical_history s1 @ xs" "length xs = k" by blast
  with c1 have "chemical_history s'
      = chemical_history s @ (sum_list (map snd (chemicals s)) # xs)"
    "length (sum_list (map snd (chemicals s)) # xs) = Suc k"
    "hd (sum_list (map snd (chemicals s)) # xs) = sum_list (map snd (chemicals s))"
    by simp_all
  then show ?case by blast
qed

lemma generations_loop_add:
  "generations_loop rnd sl g (i + k) s =
     (case generations_loop rnd sl g i s of
        Inl e \<Rightarrow> Inl e
      | Inr s1 \<Rightarrow> generations_loop rnd sl (g + i) k s1)"
  by (induction i arbitrary: g s) (simp_all split: sum.splits)

lemma initial_history_fold:
  "map_of (fold (\<lambda>a ph. AList.update (name (h a)) [] ph) sl ph0) n =
     (if n \<in> set (species_names h sl) then Some [] else map_of ph0 n)"
  by (induction sl arbitrary: ph0) (auto simp: species_names_simps AList.update_conv')

lemma initial_history_lookup:
  "map_of (initial_history h sl) n = (if n \<in> set (species_names h sl) then Some [] else None)"
  by (simp add: initial_history_def initial_history_fold)

lemma initial_history_fold_distinct:
  "distinct (map fst ph0) \<Longrightarrow>
     distinct (map fst (fold (\<lambda>a ph. AList.update (name (h a)) [] ph) sl ph0))"
  by (induction sl arbitrary: ph0) (simp_all add: AList.distinct_update)

lemma initial_history_keys:
  "distinct (map fst (initial_history h sl))"
  "fst ` set (initial_history h sl) = set (species_names h sl)"
proof -
  show "distinct (map fst (initial_history h sl))"
    by (simp add: initial_history_def initial_history_fold_distinct)
  have "dom (map_of (initial_history h sl)) = set (species_names h sl)"
    by (auto simp: initial_history_lookup split: if_splits)
  then show "fst ` set (initial_history h sl) = set (species_names h sl)"
    by (simp add: dom_map_of_conv_image_fst)
qed

section \<open>Length of the histories\<close>

lemma initial_state_simps:
  "heap (initial_state sl h env) = h"
  "chemicals (initial_state sl h env) = env"
  "population_history (initial_state sl h env) = initial_history h sl"
  "chemical_history (initial_state sl h env) = []"
  by (simp_all add: initial_state_def)

lemma simulate_ecosystem_ok:
  assumes "valid_setup h sl env"
  shows "\<exists>r. simulate_ecosystem rnd sl h env G = Inr r"
  unfolding simulate_ecosystem_def
  by (rule generations_loop_ok)
     (simp_all add: initial_state_simps assms initial_history_keys)

lemma simulate_ecosystem_entry:
  assumes "simulate_ecosystem rnd sl h env G = Inr r" and "a \<in> set sl"
  shows "\<exists>l. map_of (population_history r) (name (h a)) = Some l \<and>
             length l = nat G * count_list (species_names h sl) (name (h a))"
proof -
  have "map_of (population_history (initial_state sl h env)) (name (h a)) = Some []"
    using assms(2) by (simp add: initial_state_simps initial_history_lookup species_names_simps)
  from generations_loop_lengths [OF assms(1) [unfolded simulate_ecosystem_def] this]
  show ?thesis by (simp add: initial_state_simps)
qed


lemma count_list_distinct:
  "distinct xs \<Longrightarrow> x \<in> set xs \<Longrightarrow> count_list xs x = 1"
  by (induction xs) (auto simp: count_list_0_iff)

lemma distinct_count_list:
  "(\<forall>x \<in> set xs. count_list xs x = 1) \<Longrightarrow> distinct xs"
proof (induction xs)
  case Nil
  show ?case by simp
next
  case (Cons y ys)
  from Cons.prems have "count_list ys y = 0" by simp
  then have y: "y \<notin> set ys" by (simp add: count_list_0_iff)
  have "\<forall>x \<in> set ys. count_list ys x = 1"
  proof
    fix x assume x: "x \<in> set ys"
    with y have "x \<noteq> y" by auto
    with Cons.prems x show "count_list ys x = 1" by (auto split: if_splits)
  qed
  with Cons.IH y show ?case by simp
qed


text \<open>
  A species whose affinity is not a key of the environment makes the first generation
  raise \<open>KeyError\<close>.
\<close>

lemma simulate_ecosystem_key_error:
  "simulate_ecosystem fixed_randomness [0] example_heap [(''sulfur'', 800)] 1 = Inl KeyError"
  by (simp add: simulate_ecosystem_def initial_state_def initial_history_def
      example_heap_def ex_species_def generation_def species_turn_def consume_chemicals_def
      Let_def)


text \<open>
  Claim C10. The population history has exactly one entry per distinct name. When the
  run returns, the sequence of a name has length \<open>k * G\<close>, where \<open>k\<close> is the number of
  positions of the species list that carry this name; and for \<open>G > 0\<close> every species has
  a sequence of length \<open>G\<close> if and only if the names of the list are pairwise distinct.
\<close>

theorem population_history_keyed_by_name:
  assumes "simulate_ecosystem rnd sl h env G = Inr r" and "0 \<le> G"
  shows "distinct (map fst (population_history r)) \<and>
         fst ` set (population_history r) = set (species_names h sl) \<and>
         (\<forall>a \<in> set sl. \<exists>l. map_of (population_history r) (name (h a)) = Some l \<and>
            int (length l) = int (count_list (species_names h sl) (name (h a))) * G) \<and>
         (0 < G \<longrightarrow>
            (\<forall>a \<in> set sl. \<exists>l. map_of (population_history r) (name (h a)) = Some l \<and>
                                  int (length l) = G)
            = distinct (species_names h sl))"
proof (intro conjI impI)
  have k: "map fst (population_history r) = map fst (initial_history h sl)"
    using generations_loop_frame [OF assms(1) [unfolded simulate_ecosystem_def]]
    by (simp add: initial_state_simps)
  show "distinct (map fst (population_history r))"
    by (simp add: k initial_history_keys)
  have "fst ` set (population_history r) = fst ` set (initial_history h sl)"
    using k by (metis image_set)
  then show "fst ` set (population_history r) = set (species_names h sl)"
    by (simp add: initial_history_keys)
  show len: "\<forall>a \<in> set sl. \<exists>l. map_of (population_history r) (name (h a)) = Some l \<and>
            int (length l) = int (count_list (species_names h sl) (name (h a))) * G"
  proof
    fix a assume "a \<in> set sl"
    from simulate_ecosystem_entry [OF assms(1) this] assms(2)
    show "\<exists>l. map_of (population_history r) (name (h a)) = Some l \<and>
            int (length l) = int (count_list (species_names h sl) (name (h a))) * G"
      by (auto simp: mult.commute)
  qed
  assume G: "0 < G"
  show "(\<forall>a \<in> set sl. \<exists>l. map_of (population_history r) (name (h a)) = Some l \<and>
                                  int (length l) = G)
            = distinct (species_names h sl)"
  proof
    assume all: "\<forall>a \<in> set sl. \<exists>l. map_of (population_history r) (name (h a)) = Some l \<and>
                                  int (length l) = G"
    have "count_list (species_names h sl) n = 1" if "n \<in> set (species_names h sl)" for n
    proof -
      from that obtain a where a: "a \<in> set sl" "n = name (h a)"
        by (auto simp: species_names_simps)
      from all a obtain l where "map_of (population_history r) n = Some l" "int (length l) = G"
        by blast
      moreover from len a obtain l' where "map_of (population_history r) n = Some l'"
        "int (length l') = int (count_list (species_names h sl) n) * G"
        by blast
      ultimately have "int (count_list (species_names h sl) n) * G = G" by simp
      with G show ?thesis by simp
    qed
    then show "distinct (species_names h sl)" by (intro distinct_count_list) simp
  next
    assume d: "distinct (species_names h sl)"
    show "\<forall>a \<in> set sl. \<exists>l. map_of (population_history r) (name (h a)) = Some l \<and>
                                  int (length l) = G"
    proof
      fix a assume a: "a \<in> set sl"
      then have "count_list (species_names h sl) (name (h a)) = 1"
        by (intro count_list_distinct [OF d]) (simp add: species_names_simps)
      with len a show "\<exists>l. map_of (population_history r) (name (h a)) = Some l \<and>
                                  int (length l) = G"
        by fastforce
    qed
  qed
qed

subsection \<open>Example runs\<close>

lemma example_setup_facts:
  "distinct (species_names example_heap [0, 1, 2])"
  "valid_setup example_heap [0, 1, 2] INITIAL_CHEMICALS"
  by (simp_all add: species_names_def valid_setup_def example_heap_def ex_species_def
      INITIAL_CHEMICALS_def ENERGY_YIELD_def)


text \<open>Two species named \<open>Chemosynth A\<close>, two generations: one sequence of length 4.\<close>

theorem population_history_keyed_by_name_witness:
  "(0::int) \<le> 2 \<and>
   count_list (species_names twin_heap [0, 1]) (name (twin_heap 1)) = 2 \<and>
   \<not> distinct (species_names twin_heap [0, 1]) \<and>
   (\<exists>r. simulate_ecosystem fixed_randomness [0, 1] twin_heap INITIAL_CHEMICALS 2 = Inr r \<and>
        population_history r = [(''Chemosynth A'', [105, 105, 111, 108])] \<and>
        (\<exists>l. map_of (population_history r) (name (twin_heap 1)) = Some l \<and>
             int (length l) = 2 * 2))"
proof -
  have "map_sum id population_history
      (simulate_ecosystem fixed_randomness [0, 1] twin_heap INITIAL_CHEMICALS 2)
      = Inr [(''Chemosynth A'', [105, 105, 111, 108])]"
    by (simp add: simulate_ecosystem_def initial_state_def initial_history_def twin_heap_def
      ex_species_def INITIAL_CHEMICALS_def fixed_randomness_def quiet_draw_def generation_def
      species_turn_def consume_chemicals_def ENERGY_YIELD_def symbiotic_interaction_def
      reproduce_def py_int_def predation_def evolve_def replenish_chemicals_def randint_def
      Let_def numeral_2_eq_2)
  then obtain r where
    r: "simulate_ecosystem fixed_randomness [0, 1] twin_heap INITIAL_CHEMICALS 2 = Inr r"
    and p: "population_history r = [(''Chemosynth A'', [105, 105, 111, 108])]"
    by (cases "simulate_ecosystem fixed_randomness [0, 1] twin_heap INITIAL_CHEMICALS 2") auto
  have c: "count_list (species_names twin_heap [0, 1]) (name (twin_heap 1)) = 2"
    "\<not> distinct (species_names twin_heap [0, 1])"
    by (simp_all add: species_names_def twin_heap_def)
  have ge: "(0::int) \<le> 2" by simp
  have m: "(1::nat) \<in> set [0, 1]" by simp
  from population_history_keyed_by_name [OF r ge]
  have "\<forall>a \<in> set [0, 1].
          \<exists>l. map_of (population_history r) (name (twin_heap a)) = Some l \<and>
              int (length l)
                = int (count_list (species_names twin_heap [0, 1]) (name (twin_heap a))) * 2"
    by blast
  from bspec [OF this m] c(1)
  have "\<exists>l. map_of (population_history r) (name (twin_heap 1)) = Some l \<and>
             int (length l) = 2 * 2"
    by simp
  with r p c ge show ?thesis by blast
qed

section \<open>Non-negative chemical quantities\<close>

lemma chem_nonneg_update:
  "chem_nonneg cs \<Longrightarrow> 0 \<le> v \<Longrightarrow> chem_nonneg (AList.update k v cs)"
  by (induction cs) (auto simp: chem_nonneg_def)

lemma consume_chemicals_chem_nonneg:
  assumes "chem_nonneg env" and "consume_chemicals sp env = Inr (sp', env')"
  shows "chem_nonneg env'"
proof -
  have "0 \<le> avail - min avail (real_of_int (population sp))" if "0 < avail" for avail
    using that by simp
  with assms show ?thesis
    by (auto simp: consume_chemicals_def Let_def intro!: chem_nonneg_update
        split: option.splits if_splits)
qed

lemma replenish_from_chem_nonneg:
  "chem_nonneg cs \<Longrightarrow> chem_nonneg (replenish_from i r cs)"
proof (induction i r cs rule: replenish_from.induct)
  case (1 i r)
  then show ?case by simp
next
  case (2 i r chemical q rest)
  have "10 \<le> randint 10 50 (r i)" using randint_range [of 10 50] by simp
  with 2 show ?case by (simp add: chem_nonneg_def)
qed

lemma replenish_chemicals_chem_nonneg:
  "chem_nonneg cs \<Longrightarrow> chem_nonneg (replenish_chemicals r cs)"
  by (simp add: replenish_chemicals_def replenish_from_chem_nonneg)

lemma species_turn_chem_nonneg:
  assumes "species_turn a s = Inr s'" and "chem_nonneg (chemicals s)"
  shows "chem_nonneg (chemicals s')"
proof -
  from assms(1) obtain sp cs where
    "consume_chemicals (heap s a) (chemicals s) = Inr (sp, cs)" "chemicals s' = cs"
    by (rule species_turn_elim)
  with assms(2) show ?thesis by (auto dest: consume_chemicals_chem_nonneg)
qed

lemma species_pass_chem_nonneg:
  assumes "species_pass sl s = Inr s'" and "chem_nonneg (chemicals s)"
  shows "chem_nonneg (chemicals s')"
  using assms
proof (induction sl arbitrary: s)
  case Nil
  then show ?case by simp
next
  case (Cons a rest)
  from Cons.prems(1) obtain s1 where t: "species_turn a s = Inr s1"
    and r: "species_pass rest s1 = Inr s'"
    by (auto split: sum.splits)
  from Cons.IH [OF r species_turn_chem_nonneg [OF t Cons.prems(2)]] show ?case .
qed

lemma generation_chem_nonneg:
  assumes "generation rnd sl g s = Inr s'" and "chem_nonneg (chemicals s)"
  shows "chem_nonneg (chemicals s')"
proof -
  let ?s1 = "s\<lparr>chemical_history := chemical_history s @ [sum_list (map snd (chemicals s))]\<rparr>"
  from assms(1) obtain s2 where p: "species_pass sl ?s1 = Inr s2"
    and c: "chemicals s' = replenish_chemicals (replenish_draws rnd g) (chemicals s2)"
    by (rule generation_elim)
  have "chem_nonneg (chemicals s2)"
    using species_pass_chem_nonneg [OF p] assms(2) by simp
  then show ?thesis by (simp add: c replenish_chemicals_chem_nonneg)
qed

lemma generations_loop_chem_nonneg:
  assumes "generations_loop rnd sl g k s = Inr s'" and "chem_nonneg (chemicals s)"
  shows "chem_nonneg (chemicals s')"
  using assms
proof (induction k arbitrary: g s)
  case 0
  then show ?case by simp
next
  case (Suc k)
  from Suc.prems(1) obtain s1 where g1: "generation rnd sl g s = Inr s1"
    and r: "generations_loop rnd sl (Suc g) k s1 = Inr s'"
    by (auto split: sum.splits)
  from Suc.IH [OF r generation_chem_nonneg [OF g1 Suc.prems(2)]] show ?case .
qed

text \<open>
  Claim C9. If every quantity of the environment is \<open>\<ge> 0\<close>, then so is every quantity
  after any \<open>consume_chemicals\<close> call, after any \<open>replenish_chemicals\<close> call, and at the end
  of any run of \<open>simulate_ecosystem\<close> from this environment, whatever the number of
  generations. The populations need not be non-negative for this.
\<close>

theorem chemicals_stay_nonneg:
  assumes "chem_nonneg env"
  shows "(\<forall>sp sp' env'. consume_chemicals sp env = Inr (sp', env') \<longrightarrow> chem_nonneg env') \<and>
         chem_nonneg (replenish_chemicals d env) \<and>
         (\<forall>r. simulate_ecosystem rnd sl h env G = Inr r \<longrightarrow> chem_nonneg (chemicals r))"
proof (intro conjI allI impI)
  show "chem_nonneg env'" if "consume_chemicals sp env = Inr (sp', env')" for sp sp' env'
    using assms that by (rule consume_chemicals_chem_nonneg)
  show "chem_nonneg (replenish_chemicals d env)"
    using assms by (rule replenish_chemicals_chem_nonneg)
  show "chem_nonneg (chemicals r)" if "simulate_ecosystem rnd sl h env G = Inr r" for r
    using generations_loop_chem_nonneg [OF that [unfolded simulate_ecosystem_def]] assms
    by (simp add: initial_state_simps)
qed

text \<open>One consumption, one replenishment and a run of two generations.\<close>

theorem chemicals_stay_nonneg_witness:
  "chem_nonneg INITIAL_CHEMICALS \<and>
   consume_chemicals ex_species INITIAL_CHEMICALS
     = Inr (ex_species\<lparr>energy := 800\<rparr>,
            [(''hydrogen'', 900), (''sulfur'', 800), (''methane'', 500)]) \<and>
   chem_nonneg [(''hydrogen'', 900), (''sulfur'', 800), (''methane'', 500)] \<and>
   chem_nonneg (replenish_chemicals (\<lambda>i. 7 * i) INITIAL_CHEMICALS) \<and>
   (\<exists>r. simulate_ecosystem fixed_randomness [0, 1, 2] example_heap INITIAL_CHEMICALS 2 = Inr r \<and>
        chem_nonneg (chemicals r))"
proof -
  have n: "chem_nonneg INITIAL_CHEMICALS"
    by (simp add: chem_nonneg_def INITIAL_CHEMICALS_def)
  have c: "consume_chemicals ex_species INITIAL_CHEMICALS
     = Inr (ex_species\<lparr>energy := 800\<rparr>,
            [(''hydrogen'', 900), (''sulfur'', 800), (''methane'', 500)])"
    by (simp add: consume_chemicals_def ex_species_def INITIAL_CHEMICALS_def ENERGY_YIELD_def
        Let_def)
  obtain r where
    r: "simulate_ecosystem fixed_randomness [0, 1, 2] example_heap INITIAL_CHEMICALS 2 = Inr r"
    using simulate_ecosystem_ok [OF example_setup_facts(2)] by blast
  note t = chemicals_stay_nonneg [OF n, of "\<lambda>i. 7 * i" fixed_randomness "[0, 1, 2]"
      example_heap 2]
  from t c have "chem_nonneg [(''hydrogen'', 900), (''sulfur'', 800), (''methane'', 500)]"
    by blast
  with t n c r show ?thesis by blast
qed

section \<open>What the chemical history records\<close>

lemma chemical_history_nth:
  assumes r: "simulate_ecosystem rnd sl h env G = Inr r" and i: "i < nat G"
  shows "\<exists>si. generations_loop rnd sl 0 i (initial_state sl h env) = Inr si \<and>
            chemical_history r ! i = sum_list (map snd (chemicals si))"
proof -
  let ?s0 = "initial_state sl h env"
  define k where "k = nat G - Suc i"
  have k: "nat G = i + Suc k" using i by (simp add: k_def)
  from r have whole: "generations_loop rnd sl 0 (i + Suc k) ?s0 = Inr r"
    unfolding simulate_ecosystem_def k .
  have split: "generations_loop rnd sl 0 (i + Suc k) ?s0 =
     (case generations_loop rnd sl 0 i ?s0 of
        Inl e \<Rightarrow> Inl e
      | Inr s1 \<Rightarrow> generations_loop rnd sl (0 + i) (Suc k) s1)"
    by (rule generations_loop_add)
  obtain si where si: "generations_loop rnd sl 0 i ?s0 = Inr si"
    and rest: "generations_loop rnd sl i (Suc k) si = Inr r"
  proof (cases "generations_loop rnd sl 0 i ?s0")
    case (Inl e)
    with whole split show ?thesis by (simp only: sum.case) simp
  next
    case (Inr s1)
    with whole split have "generations_loop rnd sl (0 + i) (Suc k) s1 = Inr r"
      by (simp only: sum.case)
    then have "generations_loop rnd sl i (Suc k) s1 = Inr r"
      by (simp only: add_0)
    with Inr that show ?thesis by blast
  qed
  from generations_loop_chemical_history [OF si]
  have len: "length (chemical_history si) = i"
    by (auto simp: initial_state_simps)
  from generations_loop_chemical_history [OF rest] obtain ys where
    ys: "chemical_history r = chemical_history si @ ys" "length ys = Suc k"
      "hd ys = sum_list (map snd (chemicals si))"
    by blast
  from ys(2) obtain y ys' where c: "ys = y # ys'" by (cases ys) simp_all
  with ys(3) have y: "y = sum_list (map snd (chemicals si))" by simp
  have "chemical_history r ! length (chemical_history si) = y"
    unfolding ys(1) c by (rule nth_append_length)
  with len y have "chemical_history r ! i = sum_list (map snd (chemicals si))"
    by simp
  with si show ?thesis by blast
qed

lemma chemical_history_first:
  assumes r: "simulate_ecosystem rnd sl h env G = Inr r" and i: "i < nat G"
  shows "chemical_history r ! 0 = sum_list (map snd env)"
proof -
  from i obtain k where k: "nat G = Suc k" by (cases "nat G") simp_all
  from r have "generations_loop rnd sl 0 (Suc k) (initial_state sl h env) = Inr r"
    unfolding simulate_ecosystem_def k .
  from generations_loop_chemical_history [OF this]
  obtain ys where "chemical_history r = ys" "length ys = Suc k" "hd ys = sum_list (map snd env)"
    by (auto simp: initial_state_simps)
  then show "chemical_history r ! 0 = sum_list (map snd env)"
    by (cases ys) simp_all
qed

text \<open>
  Claim C7. A generation appends to the chemical history the sum of the quantities of the
  environment it starts from. In a run that returns, entry \<open>i\<close> of the chemical history is
  the sum of the quantities in the state reached by the first \<open>i\<close> generations, that is,
  at the start of generation \<open>i\<close>, before its consumption and replenishment; entry 0 is
  the sum of the initial quantities.
\<close>

theorem chemical_history_records_start_total:
  "(generation rnd sl g s = Inr s' \<longrightarrow>
      chemical_history s' = chemical_history s @ [sum_list (map snd (chemicals s))]) \<and>
   (simulate_ecosystem rnd sl h env G = Inr r \<longrightarrow> i < nat G \<longrightarrow>
      (\<exists>si. generations_loop rnd sl 0 i (initial_state sl h env) = Inr si \<and>
            chemical_history r ! i = sum_list (map snd (chemicals si))) \<and>
      chemical_history r ! 0 = sum_list (map snd env))"
proof (intro conjI impI)
  assume "generation rnd sl g s = Inr s'"
  then show "chemical_history s' = chemical_history s @ [sum_list (map snd (chemicals s))]"
    by (rule generation_elim)
next
  assume "simulate_ecosystem rnd sl h env G = Inr r" and "i < nat G"
  then show "\<exists>si. generations_loop rnd sl 0 i (initial_state sl h env) = Inr si \<and>
            chemical_history r ! i = sum_list (map snd (chemicals si))"
    by (rule chemical_history_nth)
next
  assume "simulate_ecosystem rnd sl h env G = Inr r" and "i < nat G"
  then show "chemical_history r ! 0 = sum_list (map snd env)"
    by (rule chemical_history_first)
qed

lemma example_run_values:
  "map_sum id chemical_history
     (simulate_ecosystem fixed_randomness [0, 1, 2] example_heap INITIAL_CHEMICALS 2)
     = Inr [2300, 2051]"
  "map_sum id chemicals
     (generations_loop fixed_randomness [0, 1, 2] 0 1
        (initial_state [0, 1, 2] example_heap INITIAL_CHEMICALS))
     = Inr [(''hydrogen'', 910), (''sulfur'', 697), (''methane'', 444)]"
  "map_sum id chemical_history
     (generation fixed_randomness [0, 1, 2] 0
        (initial_state [0, 1, 2] example_heap INITIAL_CHEMICALS))
     = Inr [2300]"
  by (simp_all add: simulate_ecosystem_def initial_state_def initial_history_def
      example_heap_def ex_species_def INITIAL_CHEMICALS_def fixed_randomness_def quiet_draw_def
      generation_def species_turn_def consume_chemicals_def ENERGY_YIELD_def
      symbiotic_interaction_def reproduce_def py_int_def predation_def evolve_def
      replenish_chemicals_def randint_def Let_def numeral_2_eq_2)

text \<open>
  The example setup: 2300 at the start, and 2051 at the start of the second generation.
\<close>

theorem chemical_history_records_start_total_witness:
  "(1::nat) < nat 2 \<and>
   (\<exists>s'. generation fixed_randomness [0, 1, 2] 0
           (initial_state [0, 1, 2] example_heap INITIAL_CHEMICALS) = Inr s' \<and>
         chemical_history s' = [] @ [sum_list (map snd INITIAL_CHEMICALS)]) \<and>
   (\<exists>r si. simulate_ecosystem fixed_randomness [0, 1, 2] example_heap INITIAL_CHEMICALS 2
           = Inr r \<and>
         chemical_history r = [2300, 2051] \<and>
         generations_loop fixed_randomness [0, 1, 2] 0 1
           (initial_state [0, 1, 2] example_heap INITIAL_CHEMICALS) = Inr si \<and>
         chemicals si = [(''hydrogen'', 910), (''sulfur'', 697), (''methane'', 444)] \<and>
         chemical_history r ! 1 = sum_list (map snd (chemicals si)) \<and>
         chemical_history r ! 0 = sum_list (map snd INITIAL_CHEMICALS))"
proof -
  let ?s0 = "initial_state [0, 1, 2] example_heap INITIAL_CHEMICALS"
  from example_run_values(1) obtain r where
    r: "simulate_ecosystem fixed_randomness [0, 1, 2] example_heap INITIAL_CHEMICALS 2 = Inr r"
    and cr: "chemical_history r = [2300, 2051]"
    by (cases "simulate_ecosystem fixed_randomness [0, 1, 2] example_heap INITIAL_CHEMICALS 2")
      auto
  from example_run_values(2) obtain si where
    si: "generations_loop fixed_randomness [0, 1, 2] 0 1 ?s0 = Inr si"
    and ci: "chemicals si = [(''hydrogen'', 910), (''sulfur'', 697), (''methane'', 444)]"
    by (cases "generations_loop fixed_randomness [0, 1, 2] 0 1 ?s0") auto
  from example_run_values(3) obtain s' where
    s': "generation fixed_randomness [0, 1, 2] 0 ?s0 = Inr s'"
    by (cases "generation fixed_randomness [0, 1, 2] 0 ?s0") auto
  have i: "(1::nat) < nat 2" by simp
  note t = chemical_history_records_start_total [where rnd = fixed_randomness
      and sl = "[0, 1, 2]" and g = 0 and s = ?s0 and s' = s' and h = example_heap
      and env = INITIAL_CHEMICALS and G = 2 and r = r and i = 1]
  from t s' have g: "chemical_history s' = [] @ [sum_list (map snd INITIAL_CHEMICALS)]"
    by (simp add: initial_state_simps)
  from t r i si have "chemical_history r ! 1 = sum_list (map snd (chemicals si))"
    "chemical_history r ! 0 = sum_list (map snd INITIAL_CHEMICALS)"
    by auto
  with i s' g r cr si ci show ?thesis by blast
qed

section \<open>What the population history records\<close>

lemma species_names_append:
  "species_names h (xs @ ys) = species_names h xs @ species_names h ys"
  by (simp add: species_names_def)

lemma species_turn_heap:
  assumes "species_turn a s = Inr s'"
  obtains sp cs l where
    "consume_chemicals (heap s a) (chemicals s) = Inr (sp, cs)"
    "heap s' a = reproduce (symbiotic_interaction a ((heap s)(a := sp)) a)"
    "map_of (population_history s) (name (heap s a)) = Some l"
    "map_of (population_history s') (name (heap s a)) = Some (l @ [population (heap s' a)])"
proof -
  from assms obtain sp cs l where
    c: "consume_chemicals (heap s a) (chemicals s) = Inr (sp, cs)" and
    h: "heap s' = (symbiotic_interaction a ((heap s)(a := sp)))
                 (a := reproduce (symbiotic_interaction a ((heap s)(a := sp)) a))" and
    l: "map_of (population_history s) (name (heap s a)) = Some l" and
    ph: "population_history s'
       = AList.update (name (heap s a)) (l @ [population (heap s' a)]) (population_history s)"
    by (rule species_turn_elim)
  have "heap s' a = reproduce (symbiotic_interaction a ((heap s)(a := sp)) a)"
    by (simp add: h)
  moreover have "map_of (population_history s') (name (heap s a))
      = Some (l @ [population (heap s' a)])"
    by (simp add: ph AList.update_conv')
  ultimately show ?thesis using that c l by blast
qed

text \<open>A pass only appends to the sequences of the population history.\<close>

lemma species_pass_extends:
  assumes "species_pass sl s = Inr s'"
    and "map_of (population_history s) n = Some l"
  shows "\<exists>more. map_of (population_history s') n = Some (l @ more)"
  using assms
proof (induction sl arbitrary: s l)
  case Nil
  then show ?case by simp
next
  case (Cons a rest)
  from Cons.prems(1) obtain s1 where t: "species_turn a s = Inr s1"
    and r: "species_pass rest s1 = Inr s'"
    by (auto split: sum.splits)
  from t obtain la where
    la: "map_of (population_history s) (name (heap s a)) = Some la" and
    ph: "population_history s1
       = AList.update (name (heap s a)) (la @ [population (heap s1 a)]) (population_history s)"
    by (rule species_turn_elim)
  show ?case
  proof (cases "name (heap s a) = n")
    case True
    with la Cons.prems(2) have "la = l" by simp
    with True ph have "map_of (population_history s1) n = Some (l @ [population (heap s1 a)])"
      by (simp add: AList.update_conv')
    from Cons.IH [OF r this] show ?thesis by auto
  next
    case False
    with ph Cons.prems(2) have "map_of (population_history s1) n = Some l"
      by (simp add: AList.update_conv')
    from Cons.IH [OF r this] show ?thesis .
  qed
qed

text \<open>
  Claim C6. Take a generation that returns, on a species list \<open>pre @ a # post\<close>, and let
  \<open>sa\<close> be the state in which the turn of \<open>a\<close> starts. That turn appends to the sequence of
  the name of \<open>a\<close> the population of \<open>a\<close> right after its own \<open>reproduce\<close> call, and the
  value stays there. The predation pass runs on the heap left by the turns of all species,
  and the population that \<open>a\<close> carries into the next generation is the one after that pass;
  so the effect of predation shows first in the value recorded by the next generation.
  When the names of the list are pairwise distinct, the sequence belongs to \<open>a\<close> alone:
  this value is the only one appended in the generation, and it is the population of \<open>a\<close>
  when the predation pass starts.
\<close>

theorem population_recorded_before_predation:
  assumes gen: "generation rnd (pre @ a # post) g s = Inr s'"
  shows "\<exists>(sa :: sim) sp cs sb s2 l more.
           species_pass pre
             (s\<lparr>chemical_history := chemical_history s @ [sum_list (map snd (chemicals s))]\<rparr>)
             = Inr sa \<and>
           consume_chemicals (heap sa a) (chemicals sa) = Inr (sp, cs) \<and>
           species_turn a sa = Inr sb \<and>
           species_pass post sb = Inr s2 \<and>
           map_of (population_history sa) (name (heap s a)) = Some l \<and>
           map_of (population_history sb) (name (heap s a))
             = Some (l @ [population
                            (reproduce (symbiotic_interaction a ((heap sa)(a := sp)) a))]) \<and>
           map_of (population_history s') (name (heap s a))
             = Some (l @ population
                           (reproduce (symbiotic_interaction a ((heap sa)(a := sp)) a))
                         # more) \<and>
           heap s' = evolve_pass (evolve_draws rnd g) 0 (pre @ a # post)
                       (predation_pass (pre @ a # post) (heap s2)) \<and>
           population (heap s' a)
             = population (predation_pass (pre @ a # post) (heap s2) a) \<and>
           (distinct (species_names (heap s) (pre @ a # post)) \<longrightarrow>
              map_of (population_history s) (name (heap s a)) = Some l \<and> more = [] \<and>
              population (heap s2 a)
                = population (reproduce (symbiotic_interaction a ((heap sa)(a := sp)) a)))"
proof -
  let ?s1 = "s\<lparr>chemical_history := chemical_history s @ [sum_list (map snd (chemicals s))]\<rparr>"
  let ?n = "name (heap s a)"
  from gen obtain s2 where p: "species_pass (pre @ a # post) ?s1 = Inr s2"
    and h': "heap s' = evolve_pass (evolve_draws rnd g) 0 (pre @ a # post)
                         (predation_pass (pre @ a # post) (heap s2))"
    and ph': "population_history s' = population_history s2"
    by (rule generation_elim)
  from p obtain sa where pa: "species_pass pre ?s1 = Inr sa"
    and pr: "species_pass (a # post) sa = Inr s2"
    by (cases "species_pass pre ?s1") (simp_all add: species_pass_append)
  from pr obtain sb where t: "species_turn a sa = Inr sb"
    and pp: "species_pass post sb = Inr s2"
    by (cases "species_turn a sa") simp_all
  from t obtain sp cs l where
    c: "consume_chemicals (heap sa a) (chemicals sa) = Inr (sp, cs)" and
    hb: "heap sb a = reproduce (symbiotic_interaction a ((heap sa)(a := sp)) a)" and
    la: "map_of (population_history sa) (name (heap sa a)) = Some l" and
    eb: "map_of (population_history sb) (name (heap sa a))
           = Some (l @ [population (heap sb a)])"
    by (rule species_turn_heap)
  let ?v = "population (reproduce (symbiotic_interaction a ((heap sa)(a := sp)) a))"
  have ia: "same_identity (heap s) (heap sa)"
    using species_pass_frame [OF pa] by simp
  have ib: "same_identity (heap sa) (heap sb)"
    using t by (rule species_turn_frame(1))
  have na: "name (heap sa a) = ?n"
    using ia by (simp add: same_identity_def)
  have l: "map_of (population_history sa) ?n = Some l"
    using la na by simp
  have rec_b: "map_of (population_history sb) ?n = Some (l @ [?v])"
    using eb na hb by simp
  from species_pass_extends [OF pp rec_b] obtain more where
    rec2: "map_of (population_history s2) ?n = Some ((l @ [?v]) @ more)"
    by blast
  then have rec': "map_of (population_history s') ?n = Some (l @ ?v # more)"
    by (simp add: ph')
  have pop': "population (heap s' a)
      = population (predation_pass (pre @ a # post) (heap s2) a)"
    by (simp add: h' evolve_pass_population)
  have exact: "map_of (population_history s) ?n = Some l \<and> more = [] \<and>
      population (heap s2 a) = ?v"
    if dist: "distinct (species_names (heap s) (pre @ a # post))"
  proof -
    have names: "species_names (heap s) (pre @ a # post)
        = species_names (heap s) pre @ ?n # species_names (heap s) post"
      by (simp add: species_names_append species_names_simps)
    from dist have n_pre: "?n \<notin> set (species_names (heap s) pre)"
      and n_post: "?n \<notin> set (species_names (heap s) post)"
      unfolding names by auto
    from n_post have a_post: "a \<notin> set post"
      by (auto simp: species_names_simps)
    have "species_names (heap sb) post = species_names (heap s) post"
      using same_identity_trans [OF ia ib] by (rule species_names_cong)
    with n_post have n_post_b: "?n \<notin> set (species_names (heap sb) post)" by simp
    have "map_of (population_history sa) ?n = map_of (population_history s) ?n"
      using species_pass_other_entry [OF pa, of ?n] n_pre by simp
    with l have l0: "map_of (population_history s) ?n = Some l" by simp
    have "map_of (population_history s2) ?n = map_of (population_history sb) ?n"
      using pp n_post_b by (rule species_pass_other_entry)
    with rec2 rec_b have m: "more = []" by simp
    have "heap s2 a = heap sb a"
      using species_pass_frame [OF pp, of a] a_post by simp
    with hb have "population (heap s2 a) = ?v" by simp
    with l0 m show ?thesis by simp
  qed
  from pa c t pp l rec_b rec' h' pop' exact show ?thesis by blast
qed


text \<open>
  The example setup: \<open>Chemosynth B\<close> is recorded with 124, loses 2 to \<open>Chemosynth A\<close> and
  gains 1 from \<open>Chemosynth C\<close> afterwards, and enters the second generation with 123,
  where it is recorded with \<open>123 + 4\<close>.
\<close>

lemma example_generation_values:
  "map_sum id (\<lambda>s. (map_of (population_history s) ''Chemosynth B'', population (heap s 1)))
     (generation fixed_randomness ([0] @ 1 # [2]) 0
        (initial_state [0, 1, 2] example_heap INITIAL_CHEMICALS))
     = Inr (Some [124], 123)"
  "map_sum id population_history
     (simulate_ecosystem fixed_randomness [0, 1, 2] example_heap INITIAL_CHEMICALS 2)
     = Inr [(''Chemosynth A'', [105, 111]), (''Chemosynth B'', [124, 127]),
            (''Chemosynth C'', [84, 86])]"
  by (simp_all add: simulate_ecosystem_def initial_state_def initial_history_def
      example_heap_def ex_species_def INITIAL_CHEMICALS_def fixed_randomness_def quiet_draw_def
      generation_def species_turn_def consume_chemicals_def ENERGY_YIELD_def
      symbiotic_interaction_def reproduce_def py_int_def predation_def evolve_def
      replenish_chemicals_def randint_def Let_def numeral_2_eq_2)

theorem population_recorded_before_predation_witness:
  "distinct (species_names example_heap ([0] @ 1 # [2])) \<and>
   (\<exists>s' (s2 :: sim).
      generation fixed_randomness ([0] @ 1 # [2]) 0
        (initial_state [0, 1, 2] example_heap INITIAL_CHEMICALS) = Inr s' \<and>
      map_of (population_history s') (name (example_heap 1)) = Some [124] \<and>
      population (heap s2 1) = 124 \<and>
      heap s' = evolve_pass (evolve_draws fixed_randomness 0) 0 ([0] @ 1 # [2])
                  (predation_pass ([0] @ 1 # [2]) (heap s2)) \<and>
      population (predation_pass ([0] @ 1 # [2]) (heap s2) 1) = 123 \<and>
      population (heap s' 1) = 123) \<and>
   map_sum id population_history
     (simulate_ecosystem fixed_randomness [0, 1, 2] example_heap INITIAL_CHEMICALS 2)
     = Inr [(''Chemosynth A'', [105, 111]), (''Chemosynth B'', [124, 127]),
            (''Chemosynth C'', [84, 86])]"
proof -
  let ?s0 = "initial_state [0, 1, 2] example_heap INITIAL_CHEMICALS"
  let ?sl = "[0] @ 1 # [2::nat]"
  have d0: "distinct (species_names example_heap ?sl)"
    using example_setup_facts(1) by simp
  then have d: "distinct (species_names (heap ?s0) ?sl)"
    by (simp add: initial_state_simps)
  have nm: "name (heap ?s0 1) = ''Chemosynth B''" "name (example_heap 1) = ''Chemosynth B''"
    by (simp_all add: initial_state_simps example_heap_def)
  have l0: "map_of (population_history ?s0) ''Chemosynth B'' = Some []"
    by (simp add: initial_state_simps initial_history_lookup species_names_def
        example_heap_def)
  from example_generation_values(1) obtain s' where
    gen: "generation fixed_randomness ?sl 0 ?s0 = Inr s'"
    and rec: "map_of (population_history s') ''Chemosynth B'' = Some [124]"
    and after: "population (heap s' 1) = 123"
    by (cases "generation fixed_randomness ?sl 0 ?s0") auto
  from population_recorded_before_predation [OF gen]
  obtain sa :: sim and sp and s2 :: sim and l more where
    r: "map_of (population_history s') (name (heap ?s0 1))
           = Some (l @ population
                         (reproduce (symbiotic_interaction 1 ((heap sa)(1 := sp)) 1))
                       # more)"
    and h': "heap s' = evolve_pass (evolve_draws fixed_randomness 0) 0 ?sl
                         (predation_pass ?sl (heap s2))"
    and p': "population (heap s' 1) = population (predation_pass ?sl (heap s2) 1)"
    and ex: "distinct (species_names (heap ?s0) ?sl) \<longrightarrow>
              map_of (population_history ?s0) (name (heap ?s0 1)) = Some l \<and> more = [] \<and>
              population (heap s2 1)
                = population (reproduce (symbiotic_interaction 1 ((heap sa)(1 := sp)) 1))"
    by blast
  from ex d l0 nm have "l = []" "more = []"
    "population (heap s2 1)
       = population (reproduce (symbiotic_interaction 1 ((heap sa)(1 := sp)) 1))"
    by simp_all
  with r rec nm have v: "population (heap s2 1) = 124" by simp
  from p' after have "population (predation_pass ?sl (heap s2) 1) = 123" by simp
  moreover from rec nm
  have "map_of (population_history s') (name (example_heap 1)) = Some [124]" by simp
  ultimately have
    "\<exists>s' (s2 :: sim).
      generation fixed_randomness ?sl 0 ?s0 = Inr s' \<and>
      map_of (population_history s') (name (example_heap 1)) = Some [124] \<and>
      population (heap s2 1) = 124 \<and>
      heap s' = evolve_pass (evolve_draws fixed_randomness 0) 0 ?sl
                  (predation_pass ?sl (heap s2)) \<and>
      population (predation_pass ?sl (heap s2) 1) = 123 \<and>
      population (heap s' 1) = 123"
    using gen v after h' by blast
  with d0 example_generation_values(2) show ?thesis by blast
qed

end
